theory Spec2Isabelle
  imports Complex_Main "HOL-Library.Sublist"
begin

section \<open>Python values and exceptions\<close>

text \<open>
  The client is a Python script (\<^verbatim>\<open>neo4j_brain_control.py\<close>). The values it handles are
  command-line strings and whatever \<^verbatim>\<open>response.json()\<close> decodes: \<^verbatim>\<open>None\<close>, booleans,
  integers, floats, strings, lists and dictionaries with string keys. A dictionary is an
  association list in insertion order whose keys are pairwise distinct, as in a Python
  \<^verbatim>\<open>dict\<close>; lookups go through \<^const>\<open>map_of\<close>.
\<close>

datatype pyfloat = Finite rat | Infinity bool | NaN

datatype pyval =
    PNone
  | PBool bool
  | PInt int
  | PFloat pyfloat
  | PStr string
  | PList "pyval list"
  | PDict "(string \<times> pyval) list"

text \<open>
  Exceptions derived from \<^verbatim>\<open>Exception\<close>. \<open>RequestException\<close> stands for what
  \<^verbatim>\<open>requests.post\<close> and \<^verbatim>\<open>requests.get\<close> raise on a transport failure, with its message;
  \<open>JSONDecodeError\<close> is raised by \<^verbatim>\<open>response.json()\<close> on a body that is not JSON and is
  a subclass of \<^verbatim>\<open>ValueError\<close>. The others are raised by the interpreter; the text of their
  messages depends on the interpreter's version and is not modelled, except for
  \<open>KeyError\<close>, whose message is the missing key.
\<close>

datatype exception =
    RequestException string
  | JSONDecodeError string
  | ValueError
  | TypeError
  | AttributeError
  | KeyError string

fun is_ValueError :: "exception \<Rightarrow> bool" where
  "is_ValueError ValueError = True"
| "is_ValueError (JSONDecodeError m) = True"
| "is_ValueError e = False"

section \<open>Node tokens\<close>

text \<open>
  \<^verbatim>\<open>str.split(sep)\<close> for a one-character separator: scan the string from the left,
  closing the current field at every separator. \<^verbatim>\<open>sep.join(parts)\<close> puts the separator
  between consecutive parts.
\<close>

fun split_scan :: "char \<Rightarrow> string \<Rightarrow> string \<Rightarrow> string list" where
  "split_scan sep field [] = [field]"
| "split_scan sep field (c # cs) =
     (if c = sep then field # split_scan sep [] cs
      else split_scan sep (field @ [c]) cs)"

definition str_split :: "string \<Rightarrow> char \<Rightarrow> string list" where
  "str_split s sep = split_scan sep [] s"

fun str_join :: "string \<Rightarrow> string list \<Rightarrow> string" where
  "str_join sep [] = []"
| "str_join sep [p] = p"
| "str_join sep (p # q # ps) = p @ sep @ str_join sep (q # ps)"

text \<open>
  The body of the loop over \<^verbatim>\<open>args.nodes\<close>:
  \<^verbatim>\<open>node_id, *name_parts = node_str.split(':')\<close>
  \<^verbatim>\<open>name = ':'.join(name_parts) if name_parts else f"Neuron {node_id}"\<close>
  The starred assignment raises \<^verbatim>\<open>ValueError\<close> when the list has no first element.
\<close>

definition parse_node :: "string \<Rightarrow> exception + (string \<times> string)" where
  "parse_node node_str =
     (case str_split node_str CHR '':'' of
        [] \<Rightarrow> Inl ValueError
      | node_id # name_parts \<Rightarrow>
          Inr (node_id,
               if name_parts \<noteq> [] then str_join '':'' name_parts
               else ''Neuron '' @ node_id))"

fun parse_nodes :: "string list \<Rightarrow> exception + (string \<times> string) list" where
  "parse_nodes [] = Inr []"
| "parse_nodes (node_str # rest) =
     (case parse_node node_str of
        Inl e \<Rightarrow> Inl e
      | Inr nd \<Rightarrow> (case parse_nodes rest of Inl e \<Rightarrow> Inl e | Inr nds \<Rightarrow> Inr (nd # nds)))"

section \<open>Operations of the interpreter on decoded values\<close>

text \<open>Truth value of an object in a condition (\<^verbatim>\<open>if x:\<close>, \<^verbatim>\<open>if not x:\<close>).\<close>

fun truthy :: "pyval \<Rightarrow> bool" where
  "truthy PNone = False"
| "truthy (PBool b) = b"
| "truthy (PInt n) = (n \<noteq> 0)"
| "truthy (PFloat x) = (x \<noteq> Finite 0)"
| "truthy (PStr s) = (s \<noteq> [])"
| "truthy (PList xs) = (xs \<noteq> [])"
| "truthy (PDict kvs) = (kvs \<noteq> [])"

fun isinstance_dict :: "pyval \<Rightarrow> bool" where
  "isinstance_dict (PDict kvs) = True"
| "isinstance_dict v = False"

text \<open>\<^verbatim>\<open>obj.get(key, default)\<close>: only a dictionary has the method.\<close>

fun py_get :: "pyval \<Rightarrow> string \<Rightarrow> pyval \<Rightarrow> exception + pyval" where
  "py_get (PDict kvs) k d = Inr (case map_of kvs k of None \<Rightarrow> d | Some v \<Rightarrow> v)"
| "py_get v k d = Inl AttributeError"

text \<open>\<^verbatim>\<open>obj[key]\<close> with a string key.\<close>

fun py_getitem :: "pyval \<Rightarrow> string \<Rightarrow> exception + pyval" where
  "py_getitem (PDict kvs) k =
     (case map_of kvs k of None \<Rightarrow> Inl (KeyError k) | Some v \<Rightarrow> Inr v)"
| "py_getitem v k = Inl TypeError"

text \<open>
  \<^verbatim>\<open>s in container\<close> for a string \<open>s\<close>: an element equal to it in a list, a substring of
  a string, a key of a dictionary. A string equals no value of another type.
\<close>

fun py_contains :: "string \<Rightarrow> pyval \<Rightarrow> exception + bool" where
  "py_contains s (PList xs) = Inr (PStr s \<in> set xs)"
| "py_contains s (PStr t) = Inr (sublist s t)"
| "py_contains s (PDict kvs) = Inr (s \<in> set (map fst kvs))"
| "py_contains s v = Inl TypeError"

fun hashable :: "pyval \<Rightarrow> bool" where
  "hashable (PList xs) = False"
| "hashable (PDict kvs) = False"
| "hashable v = True"

text \<open>
  \<^verbatim>\<open>set(container)\<close>: the elements of a list (all of them must be hashable), the characters
  of a string, the keys of a dictionary. The program only asks such a set whether strings
  belong to it, so Python's identification of equal numbers of different types plays no
  role.
\<close>

fun py_set :: "pyval \<Rightarrow> exception + pyval set" where
  "py_set (PList xs) = (if list_all hashable xs then Inr (set xs) else Inl TypeError)"
| "py_set (PStr t) = Inr (set (map (\<lambda>c. PStr [c]) t))"
| "py_set (PDict kvs) = Inr (set (map (\<lambda>kv. PStr (fst kv)) kvs))"
| "py_set v = Inl TypeError"

fun py_len :: "pyval \<Rightarrow> exception + nat" where
  "py_len (PList xs) = Inr (length xs)"
| "py_len (PStr t) = Inr (length t)"
| "py_len (PDict kvs) = Inr (length kvs)"
| "py_len v = Inl TypeError"

text \<open>The sequence a \<^verbatim>\<open>for\<close> loop runs over.\<close>

fun py_iter :: "pyval \<Rightarrow> exception + pyval list" where
  "py_iter (PList xs) = Inr xs"
| "py_iter (PStr t) = Inr (map (\<lambda>c. PStr [c]) t)"
| "py_iter (PDict kvs) = Inr (map (\<lambda>kv. PStr (fst kv)) kvs)"
| "py_iter v = Inl TypeError"

section \<open>Console output and control flow\<close>

text \<open>
  Every \<^verbatim>\<open>print\<close> call of the script is one constructor, carrying the values its format
  string interpolates:
  \<^item> \<open>Enviando endpoint\<close>: \<^verbatim>\<open>Enviando peticion a {endpoint}\<close>;
  \<^item> \<open>Datos data\<close>: \<^verbatim>\<open>Datos: {json.dumps(data, ...)}\<close>;
  \<^item> \<open>Nodos_activados\<close>, \<open>Estado result\<close>: the success header of \<^verbatim>\<open>activar_nodos\<close> and
    \<^verbatim>\<open>Estado: {result}\<close>;
  \<^item> \<open>Nodos_activos\<close>: the header \<^verbatim>\<open>Nodos activos:\<close>;
  \<^item> \<open>Marca mark node_id name\<close>: \<^verbatim>\<open> {mark} {node_id} - {node['name']}\<close>, where \<open>mark\<close> is
    \<open>True\<close> for the arrow and \<open>False\<close> for the blank;
  \<^item> \<open>Advertencia\<close>: the warning header \<^verbatim>\<open>Algunos nodos solicitados no fueron activados\<close>;
  \<^item> \<open>No_activado node_id name\<close>: a line \<^verbatim>\<open>  {node['id']} - {node['name']}\<close> under it;
  \<^item> \<open>Error_http status body\<close>: \<^verbatim>\<open>Error: {response.status_code} - {response.text}\<close>;
  \<^item> \<open>Error_conexion e\<close>: \<^verbatim>\<open>Error de conexion: {e}\<close>;
  \<^item> \<open>Reiniciada\<close>: \<^verbatim>\<open>Visualizacion reiniciada\<close>;
  \<^item> \<open>Estado_actual\<close>, \<open>Hay_nodos n\<close>, \<open>Entrada k node_id node_name\<close>, \<open>No_hay_nodos\<close>,
    \<open>Respuesta_completa\<close>, \<open>Volcado result\<close>: the lines of \<^verbatim>\<open>verificar_estado\<close>, the last
    one being \<^verbatim>\<open>json.dumps(result, indent=2)\<close>;
  \<^item> \<open>Ayuda\<close>: \<^verbatim>\<open>parser.print_help()\<close>;
  \<^item> \<open>Formato_invalido\<close>: the message of the \<^verbatim>\<open>except ValueError\<close> handler in the main block;
  \<^item> \<open>Error_de_uso p\<close>: the usage message \<^verbatim>\<open>argparse\<close> prints before it exits;
  \<^item> \<open>Traceback e\<close>: the interpreter's report of an exception nobody caught.
\<close>

datatype usage_problem = Required_missing string | Expected_argument string

datatype line =
    Enviando string
  | Datos pyval
  | Nodos_activados
  | Estado pyval
  | Nodos_activos
  | Marca bool string string
  | Advertencia
  | No_activado string string
  | Error_http int string
  | Error_conexion exception
  | Reiniciada
  | Estado_actual
  | Hay_nodos nat
  | Entrada nat pyval pyval
  | No_hay_nodos
  | Respuesta_completa
  | Volcado pyval
  | Ayuda
  | Formato_invalido
  | Error_de_uso usage_problem
  | Traceback exception

text \<open>
  A block of statements yields the lines it printed and either its value or the
  exception that stopped it.
\<close>

type_synonym 'a io = "line list \<times> (exception + 'a)"

definition io_return :: "'a \<Rightarrow> 'a io" where
  "io_return x = ([], Inr x)"

definition io_print :: "line \<Rightarrow> unit io" where
  "io_print l = ([l], Inr ())"

definition io_eval :: "exception + 'a \<Rightarrow> 'a io" where
  "io_eval r = ([], r)"

definition io_bind :: "'a io \<Rightarrow> ('a \<Rightarrow> 'b io) \<Rightarrow> 'b io" where
  "io_bind m f =
     (case m of
        (out, Inl e) \<Rightarrow> (out, Inl e)
      | (out, Inr x) \<Rightarrow> (case f x of (out', r) \<Rightarrow> (out @ out', r)))"

text \<open>
  \<^verbatim>\<open>try: body except Exception as e: handler\<close>. Every exception of the model derives from
  \<^verbatim>\<open>Exception\<close>, so the handler takes them all.
\<close>

definition try_except :: "unit io \<Rightarrow> (exception \<Rightarrow> unit io) \<Rightarrow> unit io" where
  "try_except body handler =
     (case body of
        (out, Inl e) \<Rightarrow> (case handler e of (out', r) \<Rightarrow> (out @ out', r))
      | (out, Inr x) \<Rightarrow> (out, Inr x))"

section \<open>The HTTP library\<close>

text \<open>
  \<^verbatim>\<open>requests.post(endpoint, json=data)\<close>, \<^verbatim>\<open>requests.post(endpoint)\<close> and
  \<^verbatim>\<open>requests.get(endpoint)\<close> either raise or return a response. Of a response the script
  uses \<^verbatim>\<open>status_code\<close>, \<^verbatim>\<open>text\<close> and the outcome of calling \<^verbatim>\<open>json()\<close>.
\<close>

datatype request = POST string "pyval option" | GET string

record response =
  status_code :: int
  text' :: string
  json :: "exception + pyval"

type_synonym http = "request \<Rightarrow> exception + response"

definition answering :: "response \<Rightarrow> http" where
  "answering r req = Inr r"

definition failing :: "exception \<Rightarrow> http" where
  "failing e req = Inl e"

section \<open>The three operations\<close>

definition DEFAULT_SERVER_URL :: string where
  "DEFAULT_SERVER_URL = ''http://localhost:3000/api/brain''"

text \<open>
  \<^verbatim>\<open>activar_nodos\<close>. The dictionaries \<^verbatim>\<open>{"id": id, "name": name}\<close> of \<^verbatim>\<open>nodes\<close> are kept as
  the pairs they are built from: \<^verbatim>\<open>node['id']\<close> is \<^const>\<open>fst\<close>, \<^verbatim>\<open>node['name']\<close> is
  \<^const>\<open>snd\<close>; \<open>node_dict\<close> gives the dictionary that goes into the request body.
\<close>

definition node_dict :: "string \<times> string \<Rightarrow> pyval" where
  "node_dict node = PDict [(''id'', PStr (fst node)), (''name'', PStr (snd node))]"

definition activate_data :: "(string \<times> string) list \<Rightarrow> bool \<Rightarrow> pyval" where
  "activate_data node_data append' =
     PDict [(''nodes'', PList (map node_dict node_data)), (''append'', PBool append')]"

fun print_marks :: "pyval \<Rightarrow> (string \<times> string) list \<Rightarrow> unit io" where
  "print_marks active_nodes [] = io_return ()"
| "print_marks active_nodes (node # rest) =
     io_bind (io_eval (py_contains (fst node) active_nodes)) (\<lambda>mark.
     io_bind (io_print (Marca mark (fst node) (snd node))) (\<lambda>_.
     print_marks active_nodes rest))"

fun print_missing :: "(string \<times> string) list \<Rightarrow> unit io" where
  "print_missing [] = io_return ()"
| "print_missing (node # rest) =
     io_bind (io_print (No_activado (fst node) (snd node))) (\<lambda>_. print_missing rest)"

definition activar_nodos ::
    "(string \<times> string) list \<Rightarrow> bool \<Rightarrow> string \<Rightarrow> http \<Rightarrow> unit io" where
  "activar_nodos node_data append' server_url requests =
     (let endpoint = server_url @ ''/activate'';
          data = activate_data node_data append'
      in try_except
        (io_bind (io_print (Enviando endpoint)) (\<lambda>_.
         io_bind (io_print (Datos data)) (\<lambda>_.
         io_bind (io_eval (requests (POST endpoint (Some data)))) (\<lambda>response.
         if status_code response = 200 then
           io_bind (io_eval (json response)) (\<lambda>result.
           io_bind (io_print Nodos_activados) (\<lambda>_.
           io_bind (io_print (Estado result)) (\<lambda>_.
           io_bind (io_eval (py_get result ''activeNodes'' PNone)) (\<lambda>found.
           if truthy found then
             io_bind (io_print Nodos_activos) (\<lambda>_.
             io_bind (io_eval (py_getitem result ''activeNodes'')) (\<lambda>active_nodes.
             io_bind (print_marks active_nodes node_data) (\<lambda>_.
             io_bind (io_eval (py_set active_nodes)) (\<lambda>activated_ids.
             let requested_ids = set (map (\<lambda>node. PStr (fst node)) node_data);
                 missing = requested_ids - activated_ids
             in if missing \<noteq> {} then
                  io_bind (io_print Advertencia) (\<lambda>_.
                  print_missing (filter (\<lambda>n. PStr (fst n) \<in> missing) node_data))
                else io_return ()))))
           else io_return ()))))
         else io_print (Error_http (status_code response) (text' response))))))
        (\<lambda>e. io_print (Error_conexion e)))"

definition reiniciar :: "string \<Rightarrow> http \<Rightarrow> unit io" where
  "reiniciar server_url requests =
     (let endpoint = server_url @ ''/reset''
      in try_except
        (io_bind (io_print (Enviando endpoint)) (\<lambda>_.
         io_bind (io_eval (requests (POST endpoint None))) (\<lambda>response.
         if status_code response = 200 then io_print Reiniciada
         else io_print (Error_http (status_code response) (text' response)))))
        (\<lambda>e. io_print (Error_conexion e)))"

text \<open>
  The loop of \<^verbatim>\<open>verificar_estado\<close> over \<^verbatim>\<open>enumerate(active_nodes)\<close>; \<open>i\<close> is the index of the
  first entry of the list.
\<close>

fun print_entries :: "nat \<Rightarrow> pyval list \<Rightarrow> unit io" where
  "print_entries i [] = io_return ()"
| "print_entries i (node # rest) =
     io_bind (io_eval (if isinstance_dict node then py_getitem node ''id'' else Inr node))
       (\<lambda>node_id.
     io_bind (io_eval (if isinstance_dict node
                       then py_get node ''name'' (PStr ''Sin nombre'')
                       else Inr (PStr ''Sin nombre'')))
       (\<lambda>node_name.
     io_bind (io_print (Entrada (i + 1) node_id node_name)) (\<lambda>_.
     print_entries (i + 1) rest)))"

definition verificar_estado :: "string \<Rightarrow> http \<Rightarrow> unit io" where
  "verificar_estado server_url requests =
     (let endpoint = server_url @ ''/status''
      in try_except
        (io_bind (io_print (Enviando endpoint)) (\<lambda>_.
         io_bind (io_eval (requests (GET endpoint))) (\<lambda>response.
         if status_code response = 200 then
           io_bind (io_eval (json response)) (\<lambda>result.
           io_bind (io_eval (py_get result ''activeNodes'' (PList []))) (\<lambda>active_nodes.
           io_bind (io_print Estado_actual) (\<lambda>_.
           io_bind (if truthy active_nodes then
                      io_bind (io_eval (py_len active_nodes)) (\<lambda>n.
                      io_bind (io_print (Hay_nodos n)) (\<lambda>_.
                      io_bind (io_eval (py_iter active_nodes)) (\<lambda>entries.
                      print_entries 0 entries)))
                    else io_print No_hay_nodos) (\<lambda>_.
           io_bind (io_print Respuesta_completa) (\<lambda>_.
           io_print (Volcado result))))))
         else io_print (Error_http (status_code response) (text' response)))))
        (\<lambda>e. io_print (Error_conexion e)))"

section \<open>The command line\<close>

text \<open>
  The parser the script declares has the option \<^verbatim>\<open>--server\<close> with a default and three
  subcommands; \<^verbatim>\<open>activar\<close> has \<^verbatim>\<open>--nodes\<close> (\<^verbatim>\<open>nargs="+"\<close>, \<^verbatim>\<open>required=True\<close>) and the flag
  \<^verbatim>\<open>--append\<close>. An invocation says which of these the user gave: for \<^verbatim>\<open>activar\<close>, the
  values of \<^verbatim>\<open>--nodes\<close> if the option is there at all, and whether \<^verbatim>\<open>--append\<close> is there.
  \<^verbatim>\<open>parser.parse_args()\<close> returns the namespace or, for a required option that is missing
  and for an option that lacks its argument, prints a usage message and leaves the
  process with status 2, as \<^verbatim>\<open>ArgumentParser.error\<close> does.
\<close>

datatype subcommand = Activar "string list option" bool | Reiniciar | Estado_cmd

record invocation =
  server_opt :: "string option"
  subcommand_opt :: "subcommand option"

record args =
  server :: string
  comando :: "string option"
  nodes :: "string list"
  append' :: bool

definition parse_args :: "invocation \<Rightarrow> (line list \<times> nat) + args" where
  "parse_args cmdline =
     (let url = (case server_opt cmdline of None \<Rightarrow> DEFAULT_SERVER_URL | Some u \<Rightarrow> u)
      in case subcommand_opt cmdline of
           None \<Rightarrow> Inr \<lparr>server = url, comando = None, nodes = [], append' = False\<rparr>
         | Some (Activar None a) \<Rightarrow>
             Inl ([Error_de_uso (Required_missing ''--nodes/-n'')], 2)
         | Some (Activar (Some ns) a) \<Rightarrow>
             (if ns = [] then Inl ([Error_de_uso (Expected_argument ''--nodes/-n'')], 2)
              else Inr \<lparr>server = url, comando = Some ''activar'', nodes = ns, append' = a\<rparr>)
         | Some Reiniciar \<Rightarrow>
             Inr \<lparr>server = url, comando = Some ''reiniciar'', nodes = [], append' = False\<rparr>
         | Some Estado_cmd \<Rightarrow>
             Inr \<lparr>server = url, comando = Some ''estado'', nodes = [], append' = False\<rparr>)"

text \<open>
  A statement at the top level of the script: an exception that leaves it ends the process
  with a traceback and status 1; otherwise the script runs to its end, status 0.
\<close>

definition run :: "unit io \<Rightarrow> line list \<times> nat" where
  "run m = (case m of (out, Inl e) \<Rightarrow> (out @ [Traceback e], 1) | (out, Inr x) \<Rightarrow> (out, 0))"

text \<open>
  The main block. In the \<^verbatim>\<open>activar\<close> branch the \<^verbatim>\<open>try\<close> encloses both the loop over the
  tokens and the call of \<^verbatim>\<open>activar_nodos\<close>; its handler takes \<^verbatim>\<open>ValueError\<close> only.
\<close>

definition main :: "invocation \<Rightarrow> http \<Rightarrow> line list \<times> nat" where
  "main cmdline requests =
     (case parse_args cmdline of
        Inl exit \<Rightarrow> exit
      | Inr args \<Rightarrow>
          if comando args = None \<or> comando args = Some [] then ([Ayuda], 1)
          else if comando args = Some ''activar'' then
            (case io_bind (io_eval (parse_nodes (nodes args))) (\<lambda>node_data.
                  activar_nodos node_data (append' args) (server args) requests) of
               (out, Inl e) \<Rightarrow>
                 if is_ValueError e then (out @ [Formato_invalido], 1)
                 else (out @ [Traceback e], 1)
             | (out, Inr x) \<Rightarrow> (out, 0))
          else if comando args = Some ''reiniciar'' then run (reiniciar (server args) requests)
          else if comando args = Some ''estado'' then
            run (verificar_estado (server args) requests)
          else ([Ayuda], 0))"

section \<open>What the status report shows for an entry\<close>

text \<open>
  The specification's description of an entry of the status list, to compare with the loop
  of \<^verbatim>\<open>verificar_estado\<close>: a bare identifier is shown with the placeholder name, an object
  with its id and with its name, or the placeholder when it has none. An object without an
  id has no line. \<open>displayable\<close> holds of the entries that have one.
\<close>

fun entry_line :: "nat \<Rightarrow> pyval \<Rightarrow> line option" where
  "entry_line k (PDict kvs) =
     (case map_of kvs ''id'' of
        None \<Rightarrow> None
      | Some i \<Rightarrow>
          Some (Entrada k i (case map_of kvs ''name'' of
                               None \<Rightarrow> PStr ''Sin nombre'' | Some n \<Rightarrow> n)))"
| "entry_line k v = Some (Entrada k v (PStr ''Sin nombre''))"

fun displayable :: "pyval \<Rightarrow> bool" where
  "displayable (PDict kvs) = (''id'' \<in> set (map fst kvs))"
| "displayable v = True"

section \<open>Example servers and responses\<close>

text \<open>
  Concrete data for the examples: a base URL, a response with status 500, and responses
  with status 200 whose bodies decode to objects with different \<^verbatim>\<open>activeNodes\<close> lists. The
  servers \<open>answering r\<close> and \<open>failing e\<close> of the previous section give every request the same
  outcome.
\<close>

definition example_url :: string where
  "example_url = ''http://localhost:3000/api/brain''"

definition response_500 :: response where
  "response_500 = \<lparr>status_code = 500, text' = ''Internal Server Error'',
                     json = Inl (JSONDecodeError ''Expecting value'')\<rparr>"

definition response_active_1_2 :: response where
  "response_active_1_2 =
     \<lparr>status_code = 200, text' = [],
      json = Inr (PDict [(''activeNodes'', PList [PStr ''1'', PStr ''2''])])\<rparr>"

definition response_none_active :: response where
  "response_none_active =
     \<lparr>status_code = 200, text' = [],
      json = Inr (PDict [(''activeNodes'', PList [])])\<rparr>"

definition status_body :: "(string \<times> pyval) list" where
  "status_body =
     [(''activeNodes'',
       PList [PStr ''144'',
              PDict [(''id'', PStr ''145''), (''name'', PStr ''Motor'')],
              PDict [(''id'', PStr ''146'')]])]"

definition response_status :: response where
  "response_status = \<lparr>status_code = 200, text' = [], json = Inr (PDict status_body)\<rparr>"

definition broken_body :: "(string \<times> pyval) list" where
  "broken_body =
     [(''activeNodes'',
       PList [PStr ''144'', PDict [(''name'', PStr ''Motor'')], PStr ''146''])]"

definition response_broken :: response where
  "response_broken = \<lparr>status_code = 200, text' = [], json = Inr (PDict broken_body)\<rparr>"

definition response_active_7 :: response where
  "response_active_7 =
     \<lparr>status_code = 200, text' = [], json = Inr (PDict [(''activeNodes'', PInt 7)])\<rparr>"

definition response_not_json :: response where
  "response_not_json =
     \<lparr>status_code = 200, text' = ''<html>ok</html>'',
      json = Inl (JSONDecodeError ''Expecting value'')\<rparr>"

section \<open>Properties of the tokenizer\<close>

lemma split_scan_not_Nil: "split_scan sep field s \<noteq> []"
  by (induction s arbitrary: field) auto

lemma split_scan_no_sep: "sep \<notin> set s \<Longrightarrow> split_scan sep field s = [field @ s]"
  by (induction s arbitrary: field) auto

lemma split_scan_first_sep:
  "sep \<notin> set pre \<Longrightarrow>
   split_scan sep field (pre @ sep # post) = (field @ pre) # split_scan sep [] post"
  by (induction pre arbitrary: field) auto

lemma str_join_Cons:
  "str_join sep (p # ps) = (if ps = [] then p else p @ sep @ str_join sep ps)"
  by (cases ps) auto

lemma str_join_split_scan: "str_join [sep] (split_scan sep field s) = field @ s"
proof (induction s arbitrary: field)
  case Nil
  show ?case by simp
next
  case (Cons c cs)
  show ?case
  proof (cases "c = sep")
    case True
    have "str_join [sep] (field # split_scan sep [] cs)
          = field @ [sep] @ str_join [sep] (split_scan sep [] cs)"
      by (simp add: str_join_Cons split_scan_not_Nil)
    with True Cons.IH [of "[]"] show ?thesis by simp
  next
    case False
    with Cons.IH [of "field @ [c]"] show ?thesis by simp
  qed
qed

lemma parse_node_colon:
  assumes "CHR '':'' \<notin> set i"
  shows "parse_node (i @ CHR '':'' # n) = Inr (i, n)"
proof -
  have "str_split (i @ CHR '':'' # n) CHR '':'' = i # split_scan CHR '':'' [] n"
    using split_scan_first_sep [OF assms, of "[]" n] by (simp add: str_split_def)
  moreover have "str_join '':'' (split_scan CHR '':'' [] n) = n"
    using str_join_split_scan [of "CHR '':''" "[]" n] by simp
  ultimately show ?thesis
    by (simp add: parse_node_def split_scan_not_Nil)
qed

lemma parse_node_plain:
  assumes "CHR '':'' \<notin> set t"
  shows "parse_node t = Inr (t, ''Neuron '' @ t)"
  using split_scan_no_sep [OF assms, of "[]"] by (simp add: parse_node_def str_split_def)

lemma first_colon_decomp:
  assumes "CHR '':'' \<in> set t"
  shows "t = takeWhile (\<lambda>c. c \<noteq> CHR '':'') t @ CHR '':'' # tl (dropWhile (\<lambda>c. c \<noteq> CHR '':'') t)"
proof -
  from assms have "dropWhile (\<lambda>c. c \<noteq> CHR '':'') t \<noteq> []" by simp
  moreover from assms have "hd (dropWhile (\<lambda>c. c \<noteq> CHR '':'') t) = CHR '':''"
    using hd_dropWhile [of "\<lambda>c. c \<noteq> CHR '':''" t] by simp
  ultimately have "dropWhile (\<lambda>c. c \<noteq> CHR '':'') t
                   = CHR '':'' # tl (dropWhile (\<lambda>c. c \<noteq> CHR '':'') t)"
    by (cases "dropWhile (\<lambda>c. c \<noteq> CHR '':'') t") auto
  then show ?thesis
    using takeWhile_dropWhile_id [of "\<lambda>c. c \<noteq> CHR '':''" t] by simp
qed

lemma parse_node_total: "\<exists>node_id name. parse_node s = Inr (node_id, name)"
proof (cases "str_split s CHR '':''")
  case Nil
  then show ?thesis by (simp add: str_split_def split_scan_not_Nil)
next
  case (Cons node_id name_parts)
  then show ?thesis by (simp add: parse_node_def)
qed

lemma parse_nodes_total: "\<exists>node_data. parse_nodes ts = Inr node_data"
proof (induction ts)
  case Nil
  show ?case by simp
next
  case (Cons t ts)
  from parse_node_total [of t] obtain i n where "parse_node t = Inr (i, n)" by blast
  with Cons show ?case by auto
qed

section \<open>Properties of the control flow\<close>

lemma io_bind_print [simp]:
  "io_bind (io_print l) f = (case f () of (out, r) \<Rightarrow> (l # out, r))"
  by (simp add: io_bind_def io_print_def)

lemma io_bind_eval_Inr [simp]: "io_bind (io_eval (Inr x)) f = f x"
  by (simp add: io_bind_def io_eval_def split: prod.splits)

lemma io_bind_eval_Inl [simp]: "io_bind (io_eval (Inl e)) f = ([], Inl e)"
  by (simp add: io_bind_def io_eval_def)

lemma io_bind_pair_Inr [simp]:
  "io_bind (out, Inr x) f = (case f x of (out', r) \<Rightarrow> (out @ out', r))"
  by (simp add: io_bind_def)

lemma io_bind_pair_Inl [simp]: "io_bind (out, Inl e) f = (out, Inl e)"
  by (simp add: io_bind_def)

lemma try_except_Inr [simp]: "try_except (out, Inr x) h = (out, Inr x)"
  by (simp add: try_except_def)

lemma try_except_Inl_print [simp]:
  "try_except (out, Inl e) (\<lambda>e. io_print (l e)) = (out @ [l e], Inr ())"
  by (simp add: try_except_def io_print_def)

lemma try_except_print_returns:
  "snd (try_except body (\<lambda>e. io_print (l e))) = Inr ()"
proof (cases body)
  case (Pair out res)
  then show ?thesis by (cases res) (simp_all add: try_except_def io_print_def)
qed

lemma io_bind_lines:
  assumes "\<forall>l \<in> set (fst m). P l" and "\<And>x. \<forall>l \<in> set (fst (f x)). P l"
  shows "\<forall>l \<in> set (fst (io_bind m f)). P l"
proof (cases m)
  case (Pair out res)
  show ?thesis
  proof (cases res)
    case (Inl e)
    with Pair assms(1) show ?thesis by simp
  next
    case (Inr x)
    with Pair assms(1) assms(2) [of x] show ?thesis
      by (cases "f x") auto
  qed
qed

lemma try_except_lines:
  assumes "\<forall>l \<in> set (fst m). P l" and "\<And>e. \<forall>l \<in> set (fst (h e)). P l"
  shows "\<forall>l \<in> set (fst (try_except m h)). P l"
proof (cases m)
  case (Pair out res)
  show ?thesis
  proof (cases res)
    case (Inl e)
    with Pair assms(1) assms(2) [of e] show ?thesis
      by (cases "h e") (auto simp: try_except_def)
  next
    case (Inr x)
    with Pair assms(1) show ?thesis by simp
  qed
qed

lemma io_print_lines: "P l \<Longrightarrow> \<forall>x \<in> set (fst (io_print l)). P x"
  by (simp add: io_print_def)

lemma io_eval_lines: "\<forall>x \<in> set (fst (io_eval r)). P x"
  by (simp add: io_eval_def)

lemma io_return_lines: "\<forall>x \<in> set (fst (io_return v)). P x"
  by (simp add: io_return_def)

lemma if_lines:
  "(c \<Longrightarrow> \<forall>l \<in> set (fst m). P l) \<Longrightarrow> (\<not> c \<Longrightarrow> \<forall>l \<in> set (fst n). P l)
   \<Longrightarrow> \<forall>l \<in> set (fst (if c then m else n)). P l"
  by simp

section \<open>Properties of the three operations\<close>

lemma activar_nodos_returns: "snd (activar_nodos nd a url requests) = Inr ()"
  unfolding activar_nodos_def Let_def by (rule try_except_print_returns)

lemma reiniciar_returns: "snd (reiniciar url requests) = Inr ()"
  unfolding reiniciar_def Let_def by (rule try_except_print_returns)

lemma verificar_estado_returns: "snd (verificar_estado url requests) = Inr ()"
  unfolding verificar_estado_def Let_def by (rule try_except_print_returns)

lemma print_marks_PList:
  "print_marks (PList act) nd
   = (map (\<lambda>n. Marca (PStr (fst n) \<in> set act) (fst n) (snd n)) nd, Inr ())"
  by (induction nd) (simp_all add: io_return_def)

lemma print_missing_lines:
  "print_missing nd = (map (\<lambda>n. No_activado (fst n) (snd n)) nd, Inr ())"
  by (induction nd) (simp_all add: io_return_def)

lemma activar_nodos_http_error:
  assumes "requests (POST (url @ ''/activate'') (Some (activate_data nd a))) = Inr r"
      and "status_code r \<noteq> 200"
  shows "activar_nodos nd a url requests
         = ([Enviando (url @ ''/activate''), Datos (activate_data nd a),
             Error_http (status_code r) (text' r)], Inr ())"
  using assms by (simp add: activar_nodos_def Let_def io_print_def)

lemma reiniciar_http_error:
  assumes "requests (POST (url @ ''/reset'') None) = Inr r" and "status_code r \<noteq> 200"
  shows "reiniciar url requests
         = ([Enviando (url @ ''/reset''), Error_http (status_code r) (text' r)], Inr ())"
  using assms by (simp add: reiniciar_def Let_def io_print_def)

lemma verificar_estado_http_error:
  assumes "requests (GET (url @ ''/status'')) = Inr r" and "status_code r \<noteq> 200"
  shows "verificar_estado url requests
         = ([Enviando (url @ ''/status''), Error_http (status_code r) (text' r)], Inr ())"
  using assms by (simp add: verificar_estado_def Let_def io_print_def)

lemma activar_nodos_raised:
  assumes "requests (POST (url @ ''/activate'') (Some (activate_data nd a))) = Inl e"
  shows "activar_nodos nd a url requests
         = ([Enviando (url @ ''/activate''), Datos (activate_data nd a), Error_conexion e],
            Inr ())"
  using assms by (simp add: activar_nodos_def Let_def)

lemma reiniciar_raised:
  assumes "requests (POST (url @ ''/reset'') None) = Inl e"
  shows "reiniciar url requests = ([Enviando (url @ ''/reset''), Error_conexion e], Inr ())"
  using assms by (simp add: reiniciar_def Let_def)

lemma verificar_estado_raised:
  assumes "requests (GET (url @ ''/status'')) = Inl e"
  shows "verificar_estado url requests
         = ([Enviando (url @ ''/status''), Error_conexion e], Inr ())"
  using assms by (simp add: verificar_estado_def Let_def)

lemma entry_line_displayable:
  "displayable v \<Longrightarrow> \<exists>i n. entry_line k v = Some (Entrada k i n)"
proof (cases v)
  case (PDict kvs)
  assume "displayable v"
  with PDict have "map_of kvs ''id'' \<noteq> None" by (simp add: map_of_eq_None_iff)
  then obtain i where "map_of kvs ''id'' = Some i" by blast
  with PDict show ?thesis by simp
qed simp_all

lemma print_entries_step:
  assumes "entry_line (Suc i) v = Some l"
  shows "print_entries i (v # rest)
         = (case print_entries (Suc i) rest of (out, res) \<Rightarrow> (l # out, res))"
proof (cases v)
  case (PDict kvs)
  with assms obtain x where x: "map_of kvs ''id'' = Some x" by (auto split: option.splits)
  with PDict assms show ?thesis by (auto split: option.splits)
next
  case PNone with assms show ?thesis by auto
next
  case (PBool b) with assms show ?thesis by auto
next
  case (PInt n) with assms show ?thesis by auto
next
  case (PFloat x) with assms show ?thesis by auto
next
  case (PStr s) with assms show ?thesis by auto
next
  case (PList xs) with assms show ?thesis by auto
qed

lemma print_entries_displayable:
  assumes "list_all displayable xs"
  shows "\<exists>entries. print_entries i xs = (entries, Inr ())
           \<and> map Some entries = map (\<lambda>(k, v). entry_line (Suc k) v) (enumerate i xs)"
  using assms
proof (induction xs arbitrary: i)
  case Nil
  show ?case by (simp add: io_return_def)
next
  case (Cons v xs)
  then have "displayable v" and "list_all displayable xs" by simp_all
  from entry_line_displayable [OF this(1), of "Suc i"]
  obtain l where l: "entry_line (Suc i) v = Some l" by blast
  from Cons.IH [OF \<open>list_all displayable xs\<close>, of "Suc i"]
  obtain entries where e: "print_entries (Suc i) xs = (entries, Inr ())"
    and m: "map Some entries = map (\<lambda>(k, v). entry_line (Suc k) v) (enumerate (Suc i) xs)"
    by blast
  from print_entries_step [OF l, of xs] e
  have "print_entries i (v # xs) = (l # entries, Inr ())" by simp
  with l m show ?case by simp
qed

lemma print_entries_broken:
  assumes "list_all displayable pre" and "''id'' \<notin> set (map fst kvs)"
  shows "\<exists>entries. print_entries i (pre @ PDict kvs # post) = (entries, Inl (KeyError ''id''))
           \<and> map Some entries = map (\<lambda>(k, v). entry_line (Suc k) v) (enumerate i pre)"
  using assms(1)
proof (induction pre arbitrary: i)
  case Nil
  from assms(2) have "map_of kvs ''id'' = None" by (simp add: map_of_eq_None_iff)
  then show ?case by simp
next
  case (Cons v pre)
  then have "displayable v" and "list_all displayable pre" by simp_all
  from entry_line_displayable [OF this(1), of "Suc i"]
  obtain l where l: "entry_line (Suc i) v = Some l" by blast
  from Cons.IH [OF \<open>list_all displayable pre\<close>, of "Suc i"]
  obtain entries where
    e: "print_entries (Suc i) (pre @ PDict kvs # post) = (entries, Inl (KeyError ''id''))"
    and m: "map Some entries = map (\<lambda>(k, v). entry_line (Suc k) v) (enumerate (Suc i) pre)"
    by blast
  from print_entries_step [OF l, of "pre @ PDict kvs # post"] e
  have "print_entries i ((v # pre) @ PDict kvs # post) = (l # entries, Inl (KeyError ''id''))"
    by simp
  with l m show ?case by simp
qed

lemma entry_line_is_Entrada: "entry_line k v = Some l \<Longrightarrow> \<exists>i n. l = Entrada k i n"
  by (cases v) (auto split: option.splits)

lemma entries_are_Entrada:
  assumes "map Some entries = map (\<lambda>(k, v). entry_line (Suc k) v) kvs"
  shows "\<forall>l \<in> set entries. \<exists>k i n. l = Entrada k i n"
  using assms
proof (induction entries arbitrary: kvs)
  case Nil
  show ?case by simp
next
  case (Cons l entries)
  then obtain kv rest where kvs: "kvs = kv # rest" by (cases kvs) auto
  obtain k v where kv: "kv = (k, v)" by (cases kv)
  from Cons.prems kvs kv have "entry_line (Suc k) v = Some l"
    and "map Some entries = map (\<lambda>(k, v). entry_line (Suc k) v) rest" by simp_all
  with Cons.IH [of rest] entry_line_is_Entrada [of "Suc k" v l] show ?case by auto
qed

lemma print_marks_lines: "\<forall>l \<in> set (fst (print_marks act nd)). l \<noteq> Formato_invalido"
proof (induction nd)
  case Nil
  show ?case by (simp add: io_return_def)
next
  case (Cons n nd)
  show ?case
    unfolding print_marks.simps
    by (intro io_bind_lines io_eval_lines io_print_lines Cons) simp
qed

lemma print_missing_no_format: "\<forall>l \<in> set (fst (print_missing nd)). l \<noteq> Formato_invalido"
  by (auto simp: print_missing_lines)

lemma print_entries_lines: "\<forall>l \<in> set (fst (print_entries i xs)). l \<noteq> Formato_invalido"
proof (induction xs arbitrary: i)
  case Nil
  show ?case by (simp add: io_return_def)
next
  case (Cons x xs)
  show ?case
    unfolding print_entries.simps
    by (intro io_bind_lines io_eval_lines io_print_lines Cons) simp
qed

lemma activar_nodos_no_format:
  "\<forall>l \<in> set (fst (activar_nodos nd a url requests)). l \<noteq> Formato_invalido"
  unfolding activar_nodos_def Let_def
  by (intro try_except_lines io_bind_lines io_eval_lines io_print_lines io_return_lines
        if_lines print_marks_lines print_missing_no_format) simp_all

lemma reiniciar_no_format:
  "\<forall>l \<in> set (fst (reiniciar url requests)). l \<noteq> Formato_invalido"
  unfolding reiniciar_def Let_def
  by (intro try_except_lines io_bind_lines io_eval_lines io_print_lines io_return_lines
        if_lines) simp_all

lemma verificar_estado_no_format:
  "\<forall>l \<in> set (fst (verificar_estado url requests)). l \<noteq> Formato_invalido"
  unfolding verificar_estado_def Let_def
  by (intro try_except_lines io_bind_lines io_eval_lines io_print_lines io_return_lines
        if_lines print_entries_lines) simp_all

section \<open>Properties of the main block\<close>

lemma subcommand_cases:
  obtains (none) "subcommand_opt cmdline = None"
    | (nodes_missing) a where "subcommand_opt cmdline = Some (Activar None a)"
    | (nodes_empty) a where "subcommand_opt cmdline = Some (Activar (Some []) a)"
    | (activar) ns a where "subcommand_opt cmdline = Some (Activar (Some ns) a)" and "ns \<noteq> []"
    | (reiniciar) "subcommand_opt cmdline = Some Reiniciar"
    | (estado) "subcommand_opt cmdline = Some Estado_cmd"
proof (cases "subcommand_opt cmdline")
  case None
  then show ?thesis by (rule none)
next
  case (Some c)
  show ?thesis
  proof (cases c)
    case (Activar nso a)
    show ?thesis
    proof (cases nso)
      case None
      with Some Activar show ?thesis by (intro nodes_missing [of a]) simp
    next
      case (Some ns)
      with \<open>subcommand_opt cmdline = Some c\<close> Activar show ?thesis
        by (cases "ns = []") (auto intro: nodes_empty [of a] activar [of ns a])
    qed
  next
    case Reiniciar
    with Some show ?thesis by (intro reiniciar) simp
  next
    case Estado_cmd
    with Some show ?thesis by (intro estado) simp
  qed
qed

lemma main_no_subcommand:
  "subcommand_opt cmdline = None \<Longrightarrow> main cmdline requests = ([Ayuda], 1)"
  by (simp add: main_def parse_args_def Let_def)

lemma main_nodes_missing:
  "subcommand_opt cmdline = Some (Activar None a)
   \<Longrightarrow> main cmdline requests = ([Error_de_uso (Required_missing ''--nodes/-n'')], 2)"
  by (simp add: main_def parse_args_def Let_def)

lemma main_nodes_empty:
  "subcommand_opt cmdline = Some (Activar (Some []) a)
   \<Longrightarrow> main cmdline requests = ([Error_de_uso (Expected_argument ''--nodes/-n'')], 2)"
  by (simp add: main_def parse_args_def Let_def)

lemma main_activar:
  assumes "subcommand_opt cmdline = Some (Activar (Some ns) a)" and "ns \<noteq> []"
  shows "\<exists>nd. parse_nodes ns = Inr nd \<and>
          main cmdline requests
          = (fst (activar_nodos nd a
                    (case server_opt cmdline of None \<Rightarrow> DEFAULT_SERVER_URL | Some u \<Rightarrow> u)
                    requests), 0)"
proof -
  from parse_nodes_total [of ns] obtain nd where nd: "parse_nodes ns = Inr nd" by blast
  let ?url = "case server_opt cmdline of None \<Rightarrow> DEFAULT_SERVER_URL | Some u \<Rightarrow> u"
  obtain out where out: "activar_nodos nd a ?url requests = (out, Inr ())"
    using activar_nodos_returns [of nd a ?url requests]
    by (cases "activar_nodos nd a ?url requests") auto
  from assms nd out have "main cmdline requests = (out, 0)"
    by (simp add: main_def parse_args_def Let_def)
  with nd out show ?thesis by simp
qed

lemma main_reiniciar:
  assumes "subcommand_opt cmdline = Some Reiniciar"
  shows "main cmdline requests
         = (fst (reiniciar (case server_opt cmdline of None \<Rightarrow> DEFAULT_SERVER_URL | Some u \<Rightarrow> u)
                   requests), 0)"
proof -
  let ?url = "case server_opt cmdline of None \<Rightarrow> DEFAULT_SERVER_URL | Some u \<Rightarrow> u"
  obtain out where out: "reiniciar ?url requests = (out, Inr ())"
    using reiniciar_returns [of ?url requests] by (cases "reiniciar ?url requests") auto
  with assms show ?thesis
    by (simp add: main_def parse_args_def Let_def run_def)
qed

lemma main_estado:
  assumes "subcommand_opt cmdline = Some Estado_cmd"
  shows "main cmdline requests
         = (fst (verificar_estado
                   (case server_opt cmdline of None \<Rightarrow> DEFAULT_SERVER_URL | Some u \<Rightarrow> u)
                   requests), 0)"
proof -
  let ?url = "case server_opt cmdline of None \<Rightarrow> DEFAULT_SERVER_URL | Some u \<Rightarrow> u"
  obtain out where out: "verificar_estado ?url requests = (out, Inr ())"
    using verificar_estado_returns [of ?url requests]
    by (cases "verificar_estado ?url requests") auto
  with assms show ?thesis
    by (simp add: main_def parse_args_def Let_def run_def)
qed

lemma main_output_cases:
  assumes "subcommand_opt cmdline \<noteq> None" and "parse_args cmdline = Inr args"
  obtains (act) nd a where
      "main cmdline requests = (fst (activar_nodos nd a (server args) requests), 0)"
    | (reset) "main cmdline requests = (fst (reiniciar (server args) requests), 0)"
    | (status) "main cmdline requests = (fst (verificar_estado (server args) requests), 0)"
proof (cases rule: subcommand_cases [of cmdline])
  case none
  with assms(1) show ?thesis by simp
next
  case (nodes_missing b)
  with assms(2) show ?thesis by (simp add: parse_args_def)
next
  case (nodes_empty b)
  with assms(2) show ?thesis by (simp add: parse_args_def)
next
  case (activar ns b)
  with assms(2) have "server args
      = (case server_opt cmdline of None \<Rightarrow> DEFAULT_SERVER_URL | Some u \<Rightarrow> u)"
    by (auto simp: parse_args_def Let_def)
  with main_activar [OF activar, of requests] act show ?thesis by auto
next
  case reiniciar
  with assms(2) have "server args
      = (case server_opt cmdline of None \<Rightarrow> DEFAULT_SERVER_URL | Some u \<Rightarrow> u)"
    by (auto simp: parse_args_def Let_def)
  with main_reiniciar [OF reiniciar, of requests] reset show ?thesis by auto
next
  case estado
  with assms(2) have "server args
      = (case server_opt cmdline of None \<Rightarrow> DEFAULT_SERVER_URL | Some u \<Rightarrow> u)"
    by (auto simp: parse_args_def Let_def)
  with main_estado [OF estado, of requests] status show ?thesis by auto
qed

lemma main_no_format: "Formato_invalido \<notin> set (fst (main cmdline requests))"
proof -
  let ?url = "case server_opt cmdline of None \<Rightarrow> DEFAULT_SERVER_URL | Some u \<Rightarrow> u"
  show ?thesis
  proof (cases rule: subcommand_cases [of cmdline])
    case none
    then show ?thesis by (simp add: main_no_subcommand)
  next
    case (nodes_missing a)
    then show ?thesis by (simp add: main_nodes_missing)
  next
    case (nodes_empty a)
    then show ?thesis by (simp add: main_nodes_empty)
  next
    case (activar ns a)
    from main_activar [OF activar, of requests] obtain nd where
      "main cmdline requests = (fst (activar_nodos nd a ?url requests), 0)" by blast
    with activar_nodos_no_format [of nd a ?url requests] show ?thesis by auto
  next
    case reiniciar
    with main_reiniciar [of cmdline requests] reiniciar_no_format [of ?url requests]
    show ?thesis by auto
  next
    case estado
    with main_estado [of cmdline requests] verificar_estado_no_format [of ?url requests]
    show ?thesis by auto
  qed
qed

section \<open>The claims\<close>

text \<open>
  C1, as stated, fails when the server activates nothing: with status 200 and an empty
  \<open>activeNodes\<close> list, the difference between the requested ids and the activated ids is
  not empty, yet the guard \<^verbatim>\<open>if result.get('activeNodes')\<close> skips the whole report and no
  warning is printed.
\<close>

theorem activar_empty_counterexample:
  "status_code response_none_active = 200
   \<and> json response_none_active = Inr (PDict [(''activeNodes'', PList [])])
   \<and> set (map (\<lambda>node. PStr (fst node)) [(''1'', ''A'')]) - set [] \<noteq> {}
   \<and> activar_nodos [(''1'', ''A'')] False example_url (answering response_none_active)
       = ([Enviando (example_url @ ''/activate''),
           Datos (activate_data [(''1'', ''A'')] False),
           Nodos_activados,
           Estado (PDict [(''activeNodes'', PList [])])], Inr ())
   \<and> Advertencia \<notin> set (fst (activar_nodos [(''1'', ''A'')] False example_url
                                  (answering response_none_active)))
   \<and> No_activado ''1'' ''A'' \<notin> set (fst (activar_nodos [(''1'', ''A'')] False example_url
                                  (answering response_none_active)))"
  by (simp add: activar_nodos_def Let_def answering_def response_none_active_def io_return_def)

text \<open>
  C1 (amended). For an activate call answered with status 200 and a JSON object: when
  \<open>activeNodes\<close> is a non-empty list of hashable values, every requested node is printed in
  request order, marked exactly when its id is in \<open>activeNodes\<close>, and the requested nodes
  whose ids are not in \<open>activeNodes\<close> are listed under the warning header exactly when there
  is at least one; when \<open>activeNodes\<close> is absent or empty, neither the per-node report nor
  the warning is printed.
\<close>

theorem activar_nodos_report:
  assumes "requests (POST (url @ ''/activate'') (Some (activate_data nd a))) = Inr r"
      and "status_code r = 200"
      and "json r = Inr (PDict body)"
  shows "(map_of body ''activeNodes'' = Some (PList act) \<and> act \<noteq> [] \<and> list_all hashable act \<longrightarrow>
            activar_nodos nd a url requests
            = ([Enviando (url @ ''/activate''), Datos (activate_data nd a), Nodos_activados,
                Estado (PDict body), Nodos_activos]
               @ map (\<lambda>n. Marca (PStr (fst n) \<in> set act) (fst n) (snd n)) nd
               @ (if \<exists>n \<in> set nd. PStr (fst n) \<notin> set act
                  then Advertencia
                       # map (\<lambda>n. No_activado (fst n) (snd n))
                           (filter (\<lambda>n. PStr (fst n) \<notin> set act) nd)
                  else []),
               Inr ()))
       \<and> (map_of body ''activeNodes'' = None \<or> map_of body ''activeNodes'' = Some (PList []) \<longrightarrow>
            activar_nodos nd a url requests
            = ([Enviando (url @ ''/activate''), Datos (activate_data nd a), Nodos_activados,
                Estado (PDict body)], Inr ()))"
proof (intro conjI impI)
  assume h: "map_of body ''activeNodes'' = Some (PList act) \<and> act \<noteq> [] \<and> list_all hashable act"
  have m1: "\<And>S. (set (map (\<lambda>node. PStr (fst node)) nd) - S \<noteq> {})
                = (\<exists>n \<in> set nd. PStr (fst n) \<notin> S)"
    by auto
  have m2: "\<And>S. filter (\<lambda>n. PStr (fst n) \<in> set (map (\<lambda>node. PStr (fst node)) nd) - S) nd
                = filter (\<lambda>n. PStr (fst n) \<notin> S) nd"
    by (rule filter_cong) auto
  show "activar_nodos nd a url requests
        = ([Enviando (url @ ''/activate''), Datos (activate_data nd a), Nodos_activados,
            Estado (PDict body), Nodos_activos]
           @ map (\<lambda>n. Marca (PStr (fst n) \<in> set act) (fst n) (snd n)) nd
           @ (if \<exists>n \<in> set nd. PStr (fst n) \<notin> set act
              then Advertencia
                   # map (\<lambda>n. No_activado (fst n) (snd n))
                       (filter (\<lambda>n. PStr (fst n) \<notin> set act) nd)
              else []),
           Inr ())"
  proof (cases "\<exists>n \<in> set nd. PStr (fst n) \<notin> set act")
    case True
    from True assms h show ?thesis
      unfolding activar_nodos_def Let_def m2 m1
      by (simp add: print_marks_PList print_missing_lines)
  next
    case False
    from False assms h show ?thesis
      unfolding activar_nodos_def Let_def m2 m1
      by (simp add: print_marks_PList io_return_def)
  qed
next
  assume "map_of body ''activeNodes'' = None \<or> map_of body ''activeNodes'' = Some (PList [])"
  with assms show "activar_nodos nd a url requests
        = ([Enviando (url @ ''/activate''), Datos (activate_data nd a), Nodos_activados,
            Estado (PDict body)], Inr ())"
    unfolding activar_nodos_def Let_def by (auto simp: io_return_def)
qed

text \<open>
  The example of the specification: \<open>activeNodes = ["1", "2"]\<close> and the requested nodes
  \<open>("1", "A")\<close>, \<open>("3", "C")\<close>. Node 1 is marked, node 3 is under the warning.
\<close>

theorem activar_nodos_report_witness:
  "answering response_active_1_2
     (POST (example_url @ ''/activate'') (Some (activate_data [(''1'', ''A''), (''3'', ''C'')] False)))
     = Inr response_active_1_2
   \<and> status_code response_active_1_2 = 200
   \<and> list_all hashable [PStr ''1'', PStr ''2'']
   \<and> activar_nodos [(''1'', ''A''), (''3'', ''C'')] False example_url (answering response_active_1_2)
     = ([Enviando (example_url @ ''/activate''),
         Datos (activate_data [(''1'', ''A''), (''3'', ''C'')] False),
         Nodos_activados,
         Estado (PDict [(''activeNodes'', PList [PStr ''1'', PStr ''2''])]),
         Nodos_activos,
         Marca True ''1'' ''A'',
         Marca False ''3'' ''C'',
         Advertencia,
         No_activado ''3'' ''C''], Inr ())"
proof -
  have a: "answering response_active_1_2
     (POST (example_url @ ''/activate'') (Some (activate_data [(''1'', ''A''), (''3'', ''C'')] False)))
     = Inr response_active_1_2"
    by (simp add: answering_def)
  have b: "status_code response_active_1_2 = 200"
    by (simp add: response_active_1_2_def)
  have c: "json response_active_1_2 = Inr (PDict [(''activeNodes'', PList [PStr ''1'', PStr ''2''])])"
    by (simp add: response_active_1_2_def)
  show ?thesis
    using a b
      activar_nodos_report [where requests = "answering response_active_1_2"
        and url = example_url and nd = "[(''1'', ''A''), (''3'', ''C'')]" and a = False
        and r = response_active_1_2
        and body = "[(''activeNodes'', PList [PStr ''1'', PStr ''2''])]"
        and act = "[PStr ''1'', PStr ''2'']", OF a b c]
    by simp
qed

text \<open>
  C2. A token with at least one colon parses to the substring before the first colon
  as id and everything after the first colon, verbatim, as name: \<open>id:name\<close> gives
  \<open>(id, name)\<close>, and in \<open>id:a:b\<close> the later colons stay in the name. A token with no
  colon parses to itself as id and \<open>Neuron\<close> followed by the id as name.
\<close>

theorem parse_node_spec:
  "(CHR '':'' \<in> set tok \<longrightarrow>
      parse_node tok = Inr (takeWhile (\<lambda>c. c \<noteq> CHR '':'') tok,
                            tl (dropWhile (\<lambda>c. c \<noteq> CHR '':'') tok)))
   \<and> (CHR '':'' \<notin> set i \<longrightarrow> parse_node (i @ '':'' @ n) = Inr (i, n))
   \<and> (CHR '':'' \<notin> set tok \<longrightarrow> parse_node tok = Inr (tok, ''Neuron '' @ tok))"
proof (intro conjI impI)
  assume colon: "CHR '':'' \<in> set tok"
  let ?i = "takeWhile (\<lambda>c. c \<noteq> CHR '':'') tok"
  let ?n = "tl (dropWhile (\<lambda>c. c \<noteq> CHR '':'') tok)"
  have "CHR '':'' \<notin> set ?i"
    by (auto dest: set_takeWhileD)
  then have "parse_node (?i @ CHR '':'' # ?n) = Inr (?i, ?n)"
    by (rule parse_node_colon)
  with first_colon_decomp [OF colon] show "parse_node tok = Inr (?i, ?n)"
    by simp
next
  assume "CHR '':'' \<notin> set i"
  then show "parse_node (i @ '':'' @ n) = Inr (i, n)"
    using parse_node_colon [of i n] by simp
next
  assume "CHR '':'' \<notin> set tok"
  then show "parse_node tok = Inr (tok, ''Neuron '' @ tok)"
    by (rule parse_node_plain)
qed

theorem parse_node_spec_witness:
  "CHR '':'' \<in> set ''144:a:b'' \<and> CHR '':'' \<notin> set ''144''
   \<and> parse_node ''144:a:b'' = Inr (''144'', ''a:b'')
   \<and> parse_node (''144'' @ '':'' @ ''Visual'') = Inr (''144'', ''Visual'')
   \<and> parse_node ''144'' = Inr (''144'', ''Neuron 144'')"
  using parse_node_spec [of "''144:a:b''" "''144''" "''Visual''"]
        parse_node_spec [of "''144''" "''144''" "''Visual''"]
  by simp

text \<open>
  C3. Parsing a node token is total: every string, and so every list of strings, parses
  without \<^verbatim>\<open>ValueError\<close>, and the main block never prints the invalid-format message of its
  \<^verbatim>\<open>except ValueError\<close> handler, whatever the command line and the server.
\<close>

theorem format_error_unreachable:
  "(\<exists>node_id name. parse_node node_str = Inr (node_id, name))
   \<and> (\<exists>node_data. parse_nodes tokens = Inr node_data)
   \<and> Formato_invalido \<notin> set (fst (main cmdline requests))"
  using parse_node_total [of node_str] parse_nodes_total [of tokens]
        main_no_format [of cmdline requests]
  by blast

theorem format_error_unreachable_witness:
  "parse_node ''bad format'' = Inr (''bad format'', ''Neuron bad format'')
   \<and> parse_nodes [''bad format'', '':'', ''''] 
       = Inr [(''bad format'', ''Neuron bad format''), ('''', ''''), ('''', ''Neuron '')]
   \<and> Formato_invalido \<notin> set (fst (main \<lparr>server_opt = None,
          subcommand_opt = Some (Activar (Some [''bad format'', '':'', '''']) False)\<rparr>
          (answering response_500)))"
  using format_error_unreachable [of "''bad format''" "[''bad format'', '':'', '''']"
          "\<lparr>server_opt = None,
            subcommand_opt = Some (Activar (Some [''bad format'', '':'', '''']) False)\<rparr>"
          "answering response_500"]
  by (simp add: parse_node_def str_split_def)

text \<open>
  C4. For each of the three operations, a response whose status is not 200 makes the
  operation print the error line with the status code and the response text after its
  request lines, and return without raising; a process whose server answers every request
  with such a response ends with that line and with status 0.
\<close>

theorem http_error_reported:
  assumes "status_code r \<noteq> 200"
  shows "(requests (POST (url @ ''/activate'') (Some (activate_data nd a))) = Inr r \<longrightarrow>
            activar_nodos nd a url requests
            = ([Enviando (url @ ''/activate''), Datos (activate_data nd a),
                Error_http (status_code r) (text' r)], Inr ()))
       \<and> (requests (POST (url @ ''/reset'') None) = Inr r \<longrightarrow>
            reiniciar url requests
            = ([Enviando (url @ ''/reset''), Error_http (status_code r) (text' r)], Inr ()))
       \<and> (requests (GET (url @ ''/status'')) = Inr r \<longrightarrow>
            verificar_estado url requests
            = ([Enviando (url @ ''/status''), Error_http (status_code r) (text' r)], Inr ()))
       \<and> (subcommand_opt cmdline \<noteq> None \<and> parse_args cmdline = Inr args \<longrightarrow>
            snd (main cmdline (answering r)) = 0
            \<and> last (fst (main cmdline (answering r))) = Error_http (status_code r) (text' r))"
proof (intro conjI impI)
  assume "requests (POST (url @ ''/activate'') (Some (activate_data nd a))) = Inr r"
  with assms show "activar_nodos nd a url requests
            = ([Enviando (url @ ''/activate''), Datos (activate_data nd a),
                Error_http (status_code r) (text' r)], Inr ())"
    by (simp add: activar_nodos_http_error)
next
  assume "requests (POST (url @ ''/reset'') None) = Inr r"
  with assms show "reiniciar url requests
            = ([Enviando (url @ ''/reset''), Error_http (status_code r) (text' r)], Inr ())"
    by (simp add: reiniciar_http_error)
next
  assume "requests (GET (url @ ''/status'')) = Inr r"
  with assms show "verificar_estado url requests
            = ([Enviando (url @ ''/status''), Error_http (status_code r) (text' r)], Inr ())"
    by (simp add: verificar_estado_http_error)
next
  assume h: "subcommand_opt cmdline \<noteq> None \<and> parse_args cmdline = Inr args"
  then have h1: "subcommand_opt cmdline \<noteq> None" and h2: "parse_args cmdline = Inr args"
    by simp_all
  have ans: "\<And>req. answering r req = Inr r" by (simp add: answering_def)
  from h1 h2 have "snd (main cmdline (answering r)) = 0
        \<and> last (fst (main cmdline (answering r))) = Error_http (status_code r) (text' r)"
  proof (cases rule: main_output_cases [where requests = "answering r"])
    case (act nd' a')
    with activar_nodos_http_error [where requests = "answering r" and url = "server args"
           and nd = nd' and a = a', OF ans assms]
    show ?thesis by simp
  next
    case reset
    with reiniciar_http_error [where requests = "answering r" and url = "server args",
           OF ans assms]
    show ?thesis by simp
  next
    case status
    with verificar_estado_http_error [where requests = "answering r" and url = "server args",
           OF ans assms]
    show ?thesis by simp
  qed
  then show "snd (main cmdline (answering r)) = 0"
    and "last (fst (main cmdline (answering r))) = Error_http (status_code r) (text' r)"
    by simp_all
qed

theorem http_error_reported_witness:
  "status_code response_500 \<noteq> 200
   \<and> activar_nodos [(''1'', ''A'')] False example_url (answering response_500)
       = ([Enviando (example_url @ ''/activate''), Datos (activate_data [(''1'', ''A'')] False),
           Error_http 500 ''Internal Server Error''], Inr ())
   \<and> reiniciar example_url (answering response_500)
       = ([Enviando (example_url @ ''/reset''), Error_http 500 ''Internal Server Error''], Inr ())
   \<and> verificar_estado example_url (answering response_500)
       = ([Enviando (example_url @ ''/status''), Error_http 500 ''Internal Server Error''], Inr ())
   \<and> main \<lparr>server_opt = Some example_url, subcommand_opt = Some Estado_cmd\<rparr>
        (answering response_500)
       = ([Enviando (example_url @ ''/status''), Error_http 500 ''Internal Server Error''], 0)"
proof -
  have s: "status_code response_500 \<noteq> 200" by (simp add: response_500_def)
  have f: "status_code response_500 = 500" "text' response_500 = ''Internal Server Error''"
    by (simp_all add: response_500_def)
  have m: "main \<lparr>server_opt = Some example_url, subcommand_opt = Some Estado_cmd\<rparr>
             (answering response_500)
           = (fst (verificar_estado example_url (answering response_500)), 0)"
    using main_estado [of "\<lparr>server_opt = Some example_url, subcommand_opt = Some Estado_cmd\<rparr>"
            "answering response_500"]
    by simp
  show ?thesis
    using s f m
      http_error_reported [OF s, where requests = "answering response_500"
        and url = example_url and nd = "[(''1'', ''A'')]" and a = False
        and cmdline = "\<lparr>server_opt = Some example_url, subcommand_opt = Some Estado_cmd\<rparr>"
        and args = "\<lparr>server = example_url, comando = Some ''estado'', nodes = [],
                      append' = False\<rparr>"]
    by (simp add: answering_def)
qed

text \<open>
  C5. For each of the three operations, an exception raised by the request is caught in
  the operation, which prints the connection-error line with the exception and returns
  without raising; a process whose every request fails so ends with that line and with
  status 0.
\<close>

theorem transport_error_reported:
  "(requests (POST (url @ ''/activate'') (Some (activate_data nd a))) = Inl e \<longrightarrow>
      activar_nodos nd a url requests
      = ([Enviando (url @ ''/activate''), Datos (activate_data nd a), Error_conexion e],
         Inr ()))
   \<and> (requests (POST (url @ ''/reset'') None) = Inl e \<longrightarrow>
      reiniciar url requests = ([Enviando (url @ ''/reset''), Error_conexion e], Inr ()))
   \<and> (requests (GET (url @ ''/status'')) = Inl e \<longrightarrow>
      verificar_estado url requests = ([Enviando (url @ ''/status''), Error_conexion e], Inr ()))
   \<and> (subcommand_opt cmdline \<noteq> None \<and> parse_args cmdline = Inr args \<longrightarrow>
      snd (main cmdline (failing e)) = 0
      \<and> last (fst (main cmdline (failing e))) = Error_conexion e)"
proof (intro conjI impI)
  assume "requests (POST (url @ ''/activate'') (Some (activate_data nd a))) = Inl e"
  then show "activar_nodos nd a url requests
      = ([Enviando (url @ ''/activate''), Datos (activate_data nd a), Error_conexion e],
         Inr ())"
    by (rule activar_nodos_raised)
next
  assume "requests (POST (url @ ''/reset'') None) = Inl e"
  then show "reiniciar url requests = ([Enviando (url @ ''/reset''), Error_conexion e], Inr ())"
    by (rule reiniciar_raised)
next
  assume "requests (GET (url @ ''/status'')) = Inl e"
  then show "verificar_estado url requests
      = ([Enviando (url @ ''/status''), Error_conexion e], Inr ())"
    by (rule verificar_estado_raised)
next
  assume h: "subcommand_opt cmdline \<noteq> None \<and> parse_args cmdline = Inr args"
  then have h1: "subcommand_opt cmdline \<noteq> None" and h2: "parse_args cmdline = Inr args"
    by simp_all
  have down: "\<And>req. failing e req = Inl e" by (simp add: failing_def)
  from h1 h2 have "snd (main cmdline (failing e)) = 0
        \<and> last (fst (main cmdline (failing e))) = Error_conexion e"
  proof (cases rule: main_output_cases [where requests = "failing e"])
    case (act nd' a')
    with activar_nodos_raised [where requests = "failing e" and url = "server args"
           and nd = nd' and a = a', OF down]
    show ?thesis by simp
  next
    case reset
    with reiniciar_raised [where requests = "failing e" and url = "server args", OF down]
    show ?thesis by simp
  next
    case status
    with verificar_estado_raised [where requests = "failing e" and url = "server args",
           OF down]
    show ?thesis by simp
  qed
  then show "snd (main cmdline (failing e)) = 0"
    and "last (fst (main cmdline (failing e))) = Error_conexion e"
    by simp_all
qed

theorem transport_error_reported_witness:
  "activar_nodos [(''1'', ''A'')] True example_url (failing (RequestException ''Connection refused''))
     = ([Enviando (example_url @ ''/activate''), Datos (activate_data [(''1'', ''A'')] True),
         Error_conexion (RequestException ''Connection refused'')], Inr ())
   \<and> reiniciar example_url (failing (RequestException ''Connection refused''))
     = ([Enviando (example_url @ ''/reset''),
         Error_conexion (RequestException ''Connection refused'')], Inr ())
   \<and> verificar_estado example_url (failing (RequestException ''Connection refused''))
     = ([Enviando (example_url @ ''/status''),
         Error_conexion (RequestException ''Connection refused'')], Inr ())
   \<and> main \<lparr>server_opt = Some example_url, subcommand_opt = Some Reiniciar\<rparr>
        (failing (RequestException ''Connection refused''))
     = ([Enviando (example_url @ ''/reset''),
         Error_conexion (RequestException ''Connection refused'')], 0)"
proof -
  have m: "main \<lparr>server_opt = Some example_url, subcommand_opt = Some Reiniciar\<rparr>
             (failing (RequestException ''Connection refused''))
           = (fst (reiniciar example_url (failing (RequestException ''Connection refused''))), 0)"
    using main_reiniciar [of "\<lparr>server_opt = Some example_url, subcommand_opt = Some Reiniciar\<rparr>"
            "failing (RequestException ''Connection refused'')"]
    by simp
  show ?thesis
    using m
      transport_error_reported [where requests = "failing (RequestException ''Connection refused'')"
        and e = "RequestException ''Connection refused''"
        and url = example_url and nd = "[(''1'', ''A'')]" and a = True
        and cmdline = "\<lparr>server_opt = Some example_url, subcommand_opt = Some Reiniciar\<rparr>"
        and args = "\<lparr>server = example_url, comando = Some ''reiniciar'', nodes = [],
                      append' = False\<rparr>"]
    by (simp add: failing_def)
qed

text \<open>
  C6, as stated, fails for a missing required option: \<^verbatim>\<open>activar\<close> without \<^verbatim>\<open>--nodes\<close> is
  rejected by the argument parser, which ends the process with status 2, not 1.
\<close>

theorem missing_nodes_exit_counterexample:
  "parse_args \<lparr>server_opt = None, subcommand_opt = Some (Activar None False)\<rparr>
     = Inl ([Error_de_uso (Required_missing ''--nodes/-n'')], 2)
   \<and> snd (main \<lparr>server_opt = None, subcommand_opt = Some (Activar None False)\<rparr>
             (answering response_500)) = 2
   \<and> snd (main \<lparr>server_opt = None, subcommand_opt = Some (Activar None False)\<rparr>
             (answering response_500)) \<noteq> 1"
  by (simp add: main_def parse_args_def)

text \<open>
  C6 (amended). A missing \<^verbatim>\<open>--nodes\<close> option, or one without values, is detected by the
  argument parser and ends the process with a usage message and status 2. No node token is
  an argument error: with any non-empty list of tokens the process ends with status 0 and
  without the invalid-format message. Status 1 arises exactly when no subcommand is given.
\<close>

theorem argument_error_exit:
  "(subcommand_opt cmdline = Some (Activar None a) \<longrightarrow>
      main cmdline requests = ([Error_de_uso (Required_missing ''--nodes/-n'')], 2))
   \<and> (subcommand_opt cmdline = Some (Activar (Some []) a) \<longrightarrow>
      main cmdline requests = ([Error_de_uso (Expected_argument ''--nodes/-n'')], 2))
   \<and> (subcommand_opt cmdline = Some (Activar (Some ns) a) \<and> ns \<noteq> [] \<longrightarrow>
      snd (main cmdline requests) = 0
      \<and> Formato_invalido \<notin> set (fst (main cmdline requests)))
   \<and> (snd (main cmdline requests) = 1 \<longleftrightarrow> subcommand_opt cmdline = None)"
proof (intro conjI impI)
  assume "subcommand_opt cmdline = Some (Activar None a)"
  then show "main cmdline requests = ([Error_de_uso (Required_missing ''--nodes/-n'')], 2)"
    by (rule main_nodes_missing)
next
  assume "subcommand_opt cmdline = Some (Activar (Some []) a)"
  then show "main cmdline requests = ([Error_de_uso (Expected_argument ''--nodes/-n'')], 2)"
    by (rule main_nodes_empty)
next
  assume h: "subcommand_opt cmdline = Some (Activar (Some ns) a) \<and> ns \<noteq> []"
  then have "subcommand_opt cmdline = Some (Activar (Some ns) a)" and "ns \<noteq> []" by simp_all
  from main_activar [OF this, of requests] show "snd (main cmdline requests) = 0" by auto
next
  show "Formato_invalido \<notin> set (fst (main cmdline requests))" by (rule main_no_format)
next
  show "snd (main cmdline requests) = 1 \<longleftrightarrow> subcommand_opt cmdline = None"
  proof (cases rule: subcommand_cases [of cmdline])
    case none
    then show ?thesis by (simp add: main_no_subcommand)
  next
    case (nodes_missing b)
    then show ?thesis by (simp add: main_nodes_missing)
  next
    case (nodes_empty b)
    then show ?thesis by (simp add: main_nodes_empty)
  next
    case (activar ms b)
    from main_activar [OF activar, of requests] activar show ?thesis by auto
  next
    case reiniciar
    with main_reiniciar [of cmdline requests] show ?thesis by simp
  next
    case estado
    with main_estado [of cmdline requests] show ?thesis by simp
  qed
qed

theorem argument_error_exit_witness:
  "main \<lparr>server_opt = None, subcommand_opt = Some (Activar None True)\<rparr> (answering response_500)
     = ([Error_de_uso (Required_missing ''--nodes/-n'')], 2)
   \<and> main \<lparr>server_opt = None, subcommand_opt = Some (Activar (Some []) True)\<rparr>
        (answering response_500)
     = ([Error_de_uso (Expected_argument ''--nodes/-n'')], 2)
   \<and> snd (main \<lparr>server_opt = None, subcommand_opt = Some (Activar (Some [''bad format'']) True)\<rparr>
        (answering response_500)) = 0
   \<and> snd (main \<lparr>server_opt = None, subcommand_opt = None\<rparr> (answering response_500)) = 1"
  using argument_error_exit [of "\<lparr>server_opt = None, subcommand_opt = Some (Activar None True)\<rparr>"
          True "answering response_500" "[]"]
        argument_error_exit [of "\<lparr>server_opt = None, subcommand_opt = Some (Activar (Some []) True)\<rparr>"
          True "answering response_500" "[]"]
        argument_error_exit [of "\<lparr>server_opt = None,
            subcommand_opt = Some (Activar (Some [''bad format'']) True)\<rparr>"
          True "answering response_500" "[''bad format'']"]
        argument_error_exit [of "\<lparr>server_opt = None, subcommand_opt = None\<rparr>"
          True "answering response_500" "[]"]
  by simp

text \<open>
  C7. Invoked with no subcommand, the process prints the help and exits with status 1.
\<close>

theorem no_subcommand_help:
  "subcommand_opt cmdline = None \<Longrightarrow> main cmdline requests = ([Ayuda], 1)"
  by (rule main_no_subcommand)

theorem no_subcommand_help_witness:
  "subcommand_opt \<lparr>server_opt = Some example_url, subcommand_opt = None\<rparr> = None
   \<and> main \<lparr>server_opt = Some example_url, subcommand_opt = None\<rparr> (answering response_500)
       = ([Ayuda], 1)"
  using no_subcommand_help [of "\<lparr>server_opt = Some example_url, subcommand_opt = None\<rparr>"
          "answering response_500"]
  by simp

text \<open>
  C8, as stated, fails for a response with status 200 whose body is not of the expected
  shape: when \<open>activeNodes\<close> is the number 7, \<^verbatim>\<open>len(active_nodes)\<close> raises \<^verbatim>\<open>TypeError\<close>,
  and when the body is not JSON, \<^verbatim>\<open>response.json()\<close> raises; either way the handler prints
  the connection-error line, and neither a list, nor the no-active-nodes message, nor the
  full JSON body is printed.
\<close>

theorem status_shape_counterexample:
  "status_code response_active_7 = 200
   \<and> json response_active_7 = Inr (PDict [(''activeNodes'', PInt 7)])
   \<and> verificar_estado example_url (answering response_active_7)
       = ([Enviando (example_url @ ''/status''), Estado_actual, Error_conexion TypeError],
          Inr ())
   \<and> Volcado (PDict [(''activeNodes'', PInt 7)])
       \<notin> set (fst (verificar_estado example_url (answering response_active_7)))
   \<and> No_hay_nodos \<notin> set (fst (verificar_estado example_url (answering response_active_7)))
   \<and> status_code response_not_json = 200
   \<and> verificar_estado example_url (answering response_not_json)
       = ([Enviando (example_url @ ''/status''),
           Error_conexion (JSONDecodeError ''Expecting value'')], Inr ())"
  by (simp add: verificar_estado_def Let_def answering_def response_active_7_def
        response_not_json_def)

text \<open>
  C8 (amended). For a status call answered with status 200 and a JSON object: when \<open>activeNodes\<close> is
  absent, empty or otherwise false, the no-active-nodes message is printed; when it is a
  non-empty list of bare identifiers and of objects with an id, the count and one line per
  entry are printed, numbered from 1, with the placeholder name for a bare identifier and
  for an object without a name; in both cases the full JSON body follows.
\<close>

theorem verificar_estado_report:
  assumes "requests (GET (url @ ''/status'')) = Inr r"
      and "status_code r = 200"
      and "json r = Inr (PDict body)"
  shows "(\<not> truthy (case map_of body ''activeNodes'' of None \<Rightarrow> PList [] | Some v \<Rightarrow> v) \<longrightarrow>
            verificar_estado url requests
            = ([Enviando (url @ ''/status''), Estado_actual, No_hay_nodos, Respuesta_completa,
                Volcado (PDict body)], Inr ()))
       \<and> (map_of body ''activeNodes'' = Some (PList act) \<and> act \<noteq> [] \<and> list_all displayable act \<longrightarrow>
            (\<exists>entries.
               verificar_estado url requests
               = ([Enviando (url @ ''/status''), Estado_actual, Hay_nodos (length act)]
                  @ entries @ [Respuesta_completa, Volcado (PDict body)], Inr ())
               \<and> map Some entries
                 = map (\<lambda>(k, v). entry_line (Suc k) v) (enumerate 0 act)))"
proof (intro conjI impI)
  assume "\<not> truthy (case map_of body ''activeNodes'' of None \<Rightarrow> PList [] | Some v \<Rightarrow> v)"
  with assms show "verificar_estado url requests
            = ([Enviando (url @ ''/status''), Estado_actual, No_hay_nodos, Respuesta_completa,
                Volcado (PDict body)], Inr ())"
    unfolding verificar_estado_def Let_def by (simp add: io_print_def)
next
  assume h: "map_of body ''activeNodes'' = Some (PList act) \<and> act \<noteq> [] \<and> list_all displayable act"
  then have "list_all displayable act" by simp
  from print_entries_displayable [OF this, of 0]
  obtain entries where e: "print_entries 0 act = (entries, Inr ())"
    and m: "map Some entries = map (\<lambda>(k, v). entry_line (Suc k) v) (enumerate 0 act)"
    by blast
  from assms h e have "verificar_estado url requests
               = ([Enviando (url @ ''/status''), Estado_actual, Hay_nodos (length act)]
                  @ entries @ [Respuesta_completa, Volcado (PDict body)], Inr ())"
    unfolding verificar_estado_def Let_def by (simp add: io_print_def)
  with m show "\<exists>entries.
               verificar_estado url requests
               = ([Enviando (url @ ''/status''), Estado_actual, Hay_nodos (length act)]
                  @ entries @ [Respuesta_completa, Volcado (PDict body)], Inr ())
               \<and> map Some entries
                 = map (\<lambda>(k, v). entry_line (Suc k) v) (enumerate 0 act)"
    by blast
qed

theorem verificar_estado_report_witness:
  "answering response_status (GET (example_url @ ''/status'')) = Inr response_status
   \<and> status_code response_status = 200
   \<and> json response_status = Inr (PDict status_body)
   \<and> list_all displayable
       [PStr ''144'', PDict [(''id'', PStr ''145''), (''name'', PStr ''Motor'')],
        PDict [(''id'', PStr ''146'')]]
   \<and> verificar_estado example_url (answering response_status)
     = ([Enviando (example_url @ ''/status''), Estado_actual, Hay_nodos 3,
         Entrada 1 (PStr ''144'') (PStr ''Sin nombre''),
         Entrada 2 (PStr ''145'') (PStr ''Motor''),
         Entrada 3 (PStr ''146'') (PStr ''Sin nombre''),
         Respuesta_completa, Volcado (PDict status_body)], Inr ())
   \<and> verificar_estado example_url (answering response_none_active)
     = ([Enviando (example_url @ ''/status''), Estado_actual, No_hay_nodos, Respuesta_completa,
         Volcado (PDict [(''activeNodes'', PList [])])], Inr ())"
proof -
  have a: "answering response_status (GET (example_url @ ''/status'')) = Inr response_status"
    by (simp add: answering_def)
  have b: "status_code response_status = 200" by (simp add: response_status_def)
  have c: "json response_status = Inr (PDict status_body)" by (simp add: response_status_def)
  have a': "answering response_none_active (GET (example_url @ ''/status''))
            = Inr response_none_active"
    by (simp add: answering_def)
  have b': "status_code response_none_active = 200" by (simp add: response_none_active_def)
  have c': "json response_none_active = Inr (PDict [(''activeNodes'', PList [])])"
    by (simp add: response_none_active_def)
  have d: "list_all displayable
       [PStr ''144'', PDict [(''id'', PStr ''145''), (''name'', PStr ''Motor'')],
        PDict [(''id'', PStr ''146'')]]" by simp
  from verificar_estado_report [where requests = "answering response_status"
      and url = example_url and r = response_status and body = status_body
      and act = "[PStr ''144'', PDict [(''id'', PStr ''145''), (''name'', PStr ''Motor'')],
                  PDict [(''id'', PStr ''146'')]]", OF a b c] d
  obtain entries where
    v: "verificar_estado example_url (answering response_status)
        = ([Enviando (example_url @ ''/status''), Estado_actual, Hay_nodos 3]
           @ entries @ [Respuesta_completa, Volcado (PDict status_body)], Inr ())"
    and m: "map Some entries
        = map (\<lambda>(k, v). entry_line (Suc k) v)
            (enumerate 0 [PStr ''144'', PDict [(''id'', PStr ''145''), (''name'', PStr ''Motor'')],
                          PDict [(''id'', PStr ''146'')]])"
    by (auto simp: status_body_def)
  from m have "entries = [Entrada 1 (PStr ''144'') (PStr ''Sin nombre''),
         Entrada 2 (PStr ''145'') (PStr ''Motor''),
         Entrada 3 (PStr ''146'') (PStr ''Sin nombre'')]"
    by (auto simp: map_eq_Cons_conv)
  with v a b c d
    verificar_estado_report [where requests = "answering response_none_active"
      and url = example_url and r = response_none_active
      and body = "[(''activeNodes'', PList [])]" and act = "[]", OF a' b' c']
  show ?thesis by simp
qed

text \<open>
  C9, as stated, fails for a token that ends in a colon, or has an empty segment after its
  first colon, without its whole remainder being empty: the remainder is the name.
\<close>

theorem trailing_colon_counterexample:
  "last ''a:b:'' = CHR '':'' \<and> parse_node ''a:b:'' = Inr (''a'', ''b:'')
   \<and> parse_node ''a::b'' = Inr (''a'', '':b'')"
  by (simp add: parse_node_def str_split_def)

text \<open>
  C9 (amended). Parsing yields the empty name exactly for the tokens that consist of a
  colon-free id followed by one colon, so that the remainder after the first colon is
  empty; for such a token the default name is not applied.
\<close>

theorem empty_name_iff:
  "(parse_node tok = Inr (i, []) \<longleftrightarrow> CHR '':'' \<notin> set i \<and> tok = i @ '':'')
   \<and> (CHR '':'' \<notin> set i \<longrightarrow> parse_node (i @ '':'') \<noteq> Inr (i, ''Neuron '' @ i))"
proof
  show "parse_node tok = Inr (i, []) \<longleftrightarrow> CHR '':'' \<notin> set i \<and> tok = i @ '':''"
  proof
    assume p: "parse_node tok = Inr (i, [])"
    show "CHR '':'' \<notin> set i \<and> tok = i @ '':''"
    proof (cases "CHR '':'' \<in> set tok")
      case True
      let ?i = "takeWhile (\<lambda>c. c \<noteq> CHR '':'') tok"
      let ?n = "tl (dropWhile (\<lambda>c. c \<noteq> CHR '':'') tok)"
      have ni: "CHR '':'' \<notin> set ?i" by (auto dest: set_takeWhileD)
      then have "parse_node (?i @ CHR '':'' # ?n) = Inr (?i, ?n)" by (rule parse_node_colon)
      with first_colon_decomp [OF True] have "parse_node tok = Inr (?i, ?n)" by simp
      with p have "i = ?i" and "?n = []" by simp_all
      with ni first_colon_decomp [OF True] show ?thesis by simp
    next
      case False
      then have "parse_node tok = Inr (tok, ''Neuron '' @ tok)" by (rule parse_node_plain)
      with p show ?thesis by simp
    qed
  next
    assume "CHR '':'' \<notin> set i \<and> tok = i @ '':''"
    then show "parse_node tok = Inr (i, [])"
      using parse_node_colon [of i "[]"] by simp
  qed
next
  show "CHR '':'' \<notin> set i \<longrightarrow> parse_node (i @ '':'') \<noteq> Inr (i, ''Neuron '' @ i)"
    using parse_node_colon [of i "[]"] by simp
qed

theorem empty_name_iff_witness:
  "CHR '':'' \<notin> set ''id'' \<and> parse_node ''id:'' = Inr (''id'', [])
   \<and> parse_node ''id:'' \<noteq> Inr (''id'', ''Neuron id'')"
  using empty_name_iff [of "''id:''" "''id''"] by simp

text \<open>
  C10. For a status call answered with status 200 whose \<open>activeNodes\<close> list has an object
  without the key \<open>id\<close>, after entries that can be shown: the entries before it are printed,
  then the \<^verbatim>\<open>KeyError\<close> is reported by the connection-error line, and nothing else: no entry
  after the faulty one, no full-response header and no dump of the body.
\<close>

theorem missing_id_truncates:
  assumes "requests (GET (url @ ''/status'')) = Inr r"
      and "status_code r = 200"
      and "json r = Inr (PDict body)"
      and "map_of body ''activeNodes'' = Some (PList (pre @ PDict kvs # post))"
      and "''id'' \<notin> set (map fst kvs)"
      and "list_all displayable pre"
  shows "\<exists>entries.
           verificar_estado url requests
           = ([Enviando (url @ ''/status''), Estado_actual,
               Hay_nodos (length pre + 1 + length post)]
              @ entries @ [Error_conexion (KeyError ''id'')], Inr ())
           \<and> map Some entries = map (\<lambda>(k, v). entry_line (Suc k) v) (enumerate 0 pre)
           \<and> length entries = length pre
           \<and> Respuesta_completa \<notin> set (fst (verificar_estado url requests))
           \<and> Volcado (PDict body) \<notin> set (fst (verificar_estado url requests))"
proof -
  from print_entries_broken [OF assms(6) assms(5), of 0 post]
  obtain entries where
    e: "print_entries 0 (pre @ PDict kvs # post) = (entries, Inl (KeyError ''id''))"
    and m: "map Some entries = map (\<lambda>(k, v). entry_line (Suc k) v) (enumerate 0 pre)"
    by blast
  from assms(1-4) e have v: "verificar_estado url requests
           = ([Enviando (url @ ''/status''), Estado_actual,
               Hay_nodos (length pre + 1 + length post)]
              @ entries @ [Error_conexion (KeyError ''id'')], Inr ())"
    unfolding verificar_estado_def Let_def by simp
  from m have "length (map Some entries)
               = length (map (\<lambda>(k, v). entry_line (Suc k) v) (enumerate 0 pre))"
    by simp
  then have len: "length entries = length pre" by simp
  from entries_are_Entrada [OF m]
  have "Respuesta_completa \<notin> set entries" and "Volcado (PDict body) \<notin> set entries"
    by auto
  with v have "Respuesta_completa \<notin> set (fst (verificar_estado url requests))"
    and "Volcado (PDict body) \<notin> set (fst (verificar_estado url requests))"
    by simp_all
  with v m len show ?thesis by blast
qed

theorem missing_id_truncates_witness:
  "answering response_broken (GET (example_url @ ''/status'')) = Inr response_broken
   \<and> status_code response_broken = 200
   \<and> json response_broken = Inr (PDict broken_body)
   \<and> ''id'' \<notin> set (map fst [(''name'', PStr ''Motor'')])
   \<and> verificar_estado example_url (answering response_broken)
     = ([Enviando (example_url @ ''/status''), Estado_actual, Hay_nodos 3,
         Entrada 1 (PStr ''144'') (PStr ''Sin nombre''),
         Error_conexion (KeyError ''id'')], Inr ())"
proof -
  have a: "answering response_broken (GET (example_url @ ''/status'')) = Inr response_broken"
    by (simp add: answering_def)
  have b: "status_code response_broken = 200" by (simp add: response_broken_def)
  have c: "json response_broken = Inr (PDict broken_body)" by (simp add: response_broken_def)
  have d: "map_of broken_body ''activeNodes''
           = Some (PList ([PStr ''144''] @ PDict [(''name'', PStr ''Motor'')] # [PStr ''146'']))"
    by (simp add: broken_body_def)
  have e: "''id'' \<notin> set (map fst [(''name'', PStr ''Motor'')])" by simp
  have f: "list_all displayable [PStr ''144'']" by simp
  from missing_id_truncates [where requests = "answering response_broken"
      and url = example_url and r = response_broken and body = broken_body
      and pre = "[PStr ''144'']" and kvs = "[(''name'', PStr ''Motor'')]"
      and post = "[PStr ''146'']", OF a b c d e f]
  obtain entries where
    v: "verificar_estado example_url (answering response_broken)
        = ([Enviando (example_url @ ''/status''), Estado_actual, Hay_nodos 3]
           @ entries @ [Error_conexion (KeyError ''id'')], Inr ())"
    and m: "map Some entries
            = map (\<lambda>(k, v). entry_line (Suc k) v) (enumerate 0 [PStr ''144''])"
    by auto
  from m have "entries = [Entrada 1 (PStr ''144'') (PStr ''Sin nombre'')]"
    by (auto simp: map_eq_Cons_conv)
  with v a b c e show ?thesis by simp
qed

end
